theory Spec2Isabelle
  imports Main "HOL-Library.Word" "HOL-Library.Sublist"
begin

section \<open>Relay.Mesos: the supervision layer of \<^verbatim>\<open>relay_mesos/main.py\<close>\<close>

text \<open>
  The development embeds the functions of \<^verbatim>\<open>src/relay_mesos/main.py\<close>:
  the warmer/cooler wrapper that writes the shared value \<^verbatim>\<open>MV\<close>, the
  supervisor \<^verbatim>\<open>main\<close> with its signal handler \<^verbatim>\<open>kill_children\<close>
  and its monitor loop, and the two child targets \<^verbatim>\<open>init_relay\<close> and
  \<^verbatim>\<open>init_mesos_scheduler\<close>.

  Conventions of the embedding.
  \<^item> A function returns the trace of what it did (log records, calls on the child
    processes, writes of the shared value) next to the state it leaves and, for a
    process, the way the process ends.
  \<^item> What the environment decides (what the monitor loop observes in each pass, whether
    the readiness condition is notified, what the driver returns, whether the body of a
    \<^verbatim>\<open>try\<close> block raises) is an argument of the function.
  \<^item> A call of \<^verbatim>\<open>terminate()\<close> on a child can raise, in the signal handler, where the
    source catches what is raised, and on lines 121 and 122, where it does not. The other
    library calls of \<^verbatim>\<open>main\<close> are taken to return normally.
  \<^item> The block under \<^verbatim>\<open>with MV.get_lock()\<close> is one step: the lock makes it
    atomic, and the embedding is sequential.
\<close>

subsection \<open>The shared value \<^verbatim>\<open>MV = mp.Value('l')\<close>\<close>

text \<open>
  \<^verbatim>\<open>MV\<close> is a C \<^verbatim>\<open>long\<close> in shared memory (\<^verbatim>\<open># max_val is a ctypes.c_int64\<close>),
  zero when created. Reading \<^verbatim>\<open>MV.value\<close> gives the signed value as a Python integer;
  assigning \<^verbatim>\<open>MV.value = n\<close> keeps the low 64 bits of \<^verbatim>\<open>n\<close>, since ctypes
  does no overflow checking. The argument \<^verbatim>\<open>n\<close> and both \<^verbatim>\<open>abs\<close> results are
  unbounded Python integers.
\<close>

type_synonym c_long = "64 word"

definition Value_l :: c_long where
  "Value_l = 0"

definition read_value :: "c_long \<Rightarrow> int" where
  "read_value cell = sint cell"

definition store_value :: "int \<Rightarrow> c_long" where
  "store_value n = word_of_int n"

text \<open>
  Lines 25 to 28, the operation the specification calls \<^verbatim>\<open>merge(n)\<close>:
  \<^verbatim>\<open>
    with MV.get_lock():
        # max MV since tasks last run on mesos
        if abs(MV.value) < abs(n):
            MV.value = n
  \<close>
\<close>

definition merge :: "int \<Rightarrow> c_long \<Rightarrow> c_long" where
  "merge n cell = (if \<bar>read_value cell\<bar> < \<bar>n\<bar> then store_value n else cell)"

text \<open>A run of calls \<^verbatim>\<open>merge(n_1), ..., merge(n_k)\<close>, in this order.\<close>

fun merge_all :: "int list \<Rightarrow> c_long \<Rightarrow> c_long" where
  "merge_all [] cell = cell"
| "merge_all (n # ns) cell = merge_all ns (merge n cell)"

text \<open>The values a C \<^verbatim>\<open>long\<close> can hold.\<close>

definition in_c_long :: "int \<Rightarrow> bool" where
  "in_c_long n = (- (2 ^ 63) \<le> n \<and> n < 2 ^ 63)"

subsection \<open>Traces\<close>

datatype level = DEBUG | INFO | ERROR | EXCEPTION

datatype child = Mesos | Relay

datatype signum = SIGTERM | SIGINT

text \<open>
  One entry per effect, in program order. \<open>Terminate c\<close> is a call \<^verbatim>\<open>c.terminate()\<close>
  that returned, \<open>TerminateRaised c\<close> one that raised; \<open>Merge n\<close> is the locked block
  of the wrapper run with \<^verbatim>\<open>n\<close>; \<open>Exec cmd\<close> would be the execution of a warmer
  or cooler command by the process itself.
\<close>

datatype action =
    Log level string
  | PrintUsage
  | Start child
  | Terminate child
  | TerminateRaised child
  | InstallHandler signum
  | Recv
  | Merge int
  | Exec string
  | GateAcquire
  | GateWait
  | GateWoken
  | AtexitRegister
  | DriverRun
  | DriverStop

text \<open>
  How a process stands when the model stops looking: still in its loop, blocked in a
  wait, ended by \<^verbatim>\<open>sys.exit(k)\<close>, or ended by an exception nothing caught.
\<close>

datatype outcome = StillRunning | Blocked | Exit int | Uncaught string

subsection \<open>The wrapper (lines 14 to 30)\<close>

text \<open>
  The state the two child processes share: the value \<^verbatim>\<open>MV\<close> and the exceptions
  queued on the pipe \<^verbatim>\<open>exception_sender / exception_receiver\<close>.
\<close>

record shared =
  MV :: c_long
  pipe :: "string list"

definition warmer_cooler_wrapper :: "int \<Rightarrow> shared \<Rightarrow> action list \<times> shared" where
  "warmer_cooler_wrapper n s =
     ([Log DEBUG ''asking mesos to spawn tasks'',
       Merge n,
       Log DEBUG ''...finished asking mesos to spawn tasks''],
      s\<lparr>MV := merge n (MV s)\<rparr>)"

subsection \<open>The namespace and its copy for Relay (lines 46 and 66 to 70)\<close>

record ns =
  mesos_master :: "string option"
  warmer :: "string option"
  cooler :: "string option"
  max_failures :: int

text \<open>Python truth of an optional string: \<^verbatim>\<open>None\<close> and \<^verbatim>\<open>''\<close> are false.\<close>

definition truthy :: "string option \<Rightarrow> bool" where
  "truthy v = (case v of None \<Rightarrow> False | Some s \<Rightarrow> s \<noteq> [])"

datatype callback = Wrapper | Original "string option"

record ns_relay =
  relay_warmer :: callback
  relay_cooler :: callback

definition make_ns_relay :: "ns \<Rightarrow> ns_relay" where
  "make_ns_relay a =
     \<lparr>relay_warmer = (if truthy (warmer a) then Wrapper else Original (warmer a)),
      relay_cooler = (if truthy (cooler a) then Wrapper else Original (cooler a))\<rparr>"

subsection \<open>The signal handler (lines 86 to 103)\<close>

datatype try_result = Returns | Raises

text \<open>
  \<^verbatim>\<open>kill_children(signal, frame)\<close>. The two last arguments say whether
  \<^verbatim>\<open>mesos.terminate()\<close> and \<^verbatim>\<open>relay.terminate()\<close> raise inside their
  \<^verbatim>\<open>try\<close> block; the bare \<^verbatim>\<open>except:\<close> catches whatever is raised.
\<close>

definition kill_children :: "signum \<Rightarrow> try_result \<Rightarrow> try_result \<Rightarrow> action list \<times> outcome" where
  "kill_children sig mesos_terminate relay_terminate =
     ([Log ERROR ''Received a signal that is trying to terminate this process. Terminating mesos and relay child processes!'']
      @ (case mesos_terminate of
           Returns \<Rightarrow> [Terminate Mesos, Log INFO ''terminated mesos scheduler'']
         | Raises \<Rightarrow> [TerminateRaised Mesos, Log EXCEPTION ''could not terminate mesos scheduler''])
      @ (case relay_terminate of
           Returns \<Rightarrow> [Terminate Relay, Log INFO ''terminated relay'']
         | Raises \<Rightarrow> [TerminateRaised Relay, Log EXCEPTION ''could not terminate relay'']),
      Exit 1)"

subsection \<open>The monitor loop and \<^verbatim>\<open>main\<close> (lines 33 to 123)\<close>

text \<open>
  What one pass of \<^verbatim>\<open>while True:\<close> sees: \<^verbatim>\<open>exception_receiver.poll()\<close>,
  \<^verbatim>\<open>relay.is_alive()\<close> and \<^verbatim>\<open>mesos.is_alive()\<close>.
\<close>

record obs =
  fault_pending :: bool
  relay_alive :: bool
  mesos_alive :: bool

text \<open>
  An event is one pass of the loop, with the results that \<^verbatim>\<open>relay.terminate()\<close> and
  \<^verbatim>\<open>mesos.terminate()\<close> have if the pass leaves the loop; or the delivery of one of
  the two handled signals between two passes, with the results of the handler's two
  \<^verbatim>\<open>try\<close> blocks (mesos first).
\<close>

datatype event = Poll obs try_result try_result | Signal signum try_result try_result

text \<open>
  Lines 121 to 123: \<^verbatim>\<open>relay.terminate(); mesos.terminate(); sys.exit(1)\<close>. No handler
  stands around these calls: when one of them raises, the statements after it are not
  run and the exception leaves \<^verbatim>\<open>main\<close>. What \<^verbatim>\<open>terminate()\<close> raises is the
  \<^verbatim>\<open>OSError\<close> of the signal that could not be sent.
\<close>

definition shutdown :: "try_result \<Rightarrow> try_result \<Rightarrow> action list \<times> outcome" where
  "shutdown relay_terminate mesos_terminate =
     (case relay_terminate of
        Raises \<Rightarrow> ([TerminateRaised Relay], Uncaught ''OSError'')
      | Returns \<Rightarrow>
          (case mesos_terminate of
             Raises \<Rightarrow> ([Terminate Relay, TerminateRaised Mesos], Uncaught ''OSError'')
           | Returns \<Rightarrow> ([Terminate Relay, Terminate Mesos], Exit 1)))"

definition died_message :: string where
  "died_message =
     ''Mesos Scheduler died and didn'' @ [CHR 0x27] @
     ''t notify me of its exception.  This may be a code bug.  Check logs.''"

definition prepend :: "action list \<Rightarrow> action list \<times> outcome \<Rightarrow> action list \<times> outcome" where
  "prepend tr r = (tr @ fst r, snd r)"

text \<open>
  The loop has no exit but the three \<^verbatim>\<open>break\<close>s. The list of events is what
  happens while the model looks; a loop that has seen all of it without a break is
  \<open>StillRunning\<close>.
\<close>

fun monitor :: "event list \<Rightarrow> action list \<times> outcome" where
  "monitor [] = ([], StillRunning)"
| "monitor (Signal sig m r # es) = kill_children sig m r"
| "monitor (Poll ob rt mt # es) =
     (if fault_pending ob then
        prepend [Recv, Log ERROR ''Terminating child processes because one of them raised an exception'']
          (shutdown rt mt)
      else if \<not> relay_alive ob then
        prepend [Log ERROR ''Relay died.  Check logs to see why.''] (shutdown rt mt)
      else if \<not> mesos_alive ob then
        prepend [Log ERROR died_message] (shutdown rt mt)
      else monitor es)"

text \<open>What a pass leaves in the trace before line 121, by the \<^verbatim>\<open>break\<close> it takes.\<close>

definition break_log :: "obs \<Rightarrow> action list" where
  "break_log ob =
     (if fault_pending ob then
        [Recv, Log ERROR ''Terminating child processes because one of them raised an exception'']
      else if \<not> relay_alive ob then [Log ERROR ''Relay died.  Check logs to see why.'']
      else [Log ERROR died_message])"

definition usage_message :: string where
  "usage_message = ''Oops!  You didn'' @ [CHR 0x27] @ ''t define --mesos_master''"

text \<open>
  Lines 50 to 103 when \<^verbatim>\<open>mesos_master\<close> is given: the log record, the two
  \<^verbatim>\<open>start()\<close> calls (mesos first) and the two \<^verbatim>\<open>signal.signal\<close> calls.
  Creating \<^verbatim>\<open>MV\<close>, the pipe, the condition and the copy of the namespace leaves no
  entry in the trace.
\<close>

definition startup :: "action list" where
  "startup =
     [Log INFO ''Starting Relay Mesos!'',
      Start Mesos, Start Relay,
      InstallHandler SIGTERM, InstallHandler SIGINT]"

definition main :: "ns \<Rightarrow> event list \<Rightarrow> action list \<times> outcome" where
  "main a events =
     (if mesos_master a = None then
        ([Log ERROR usage_message, PrintUsage], Exit 1)
      else prepend startup (monitor events))"

text \<open>
  A pass is faulty when it takes one of the three \<^verbatim>\<open>break\<close>s; an event is
  quiet when the loop goes on after it.
\<close>

definition faulty :: "obs \<Rightarrow> bool" where
  "faulty ob = (fault_pending ob \<or> \<not> relay_alive ob \<or> \<not> mesos_alive ob)"

fun quiet :: "event \<Rightarrow> bool" where
  "quiet (Poll ob rt mt) = (\<not> faulty ob)"
| "quiet (Signal sig m r) = False"


subsection \<open>The Relay child: \<^verbatim>\<open>init_relay\<close> (lines 126 to 131)\<close>

text \<open>
  \<^verbatim>\<open>mesos_ready\<close> is a \<^verbatim>\<open>multiprocessing.Condition\<close>. \<^verbatim>\<open>wait()\<close> is called with
  no timeout: it returns at the first \<^verbatim>\<open>notify\<close> that comes while the process
  waits, and not before. The list is what happens on the condition from the moment the
  wait starts; a wait that has seen all of it without a notify has not returned.
\<close>

datatype gate_event = Notify | Idle

fun cond_wait :: "gate_event list \<Rightarrow> gate_event list option" where
  "cond_wait [] = None"
| "cond_wait (Notify # es) = Some es"
| "cond_wait (Idle # es) = cond_wait es"

text \<open>
  \<^verbatim>\<open>relay_main\<close> is the event loop of the Relay library. What it does to this
  program is call the warmer and the cooler of the namespace it is given; the calls it
  decides on are an argument. A slot that \<^verbatim>\<open>main\<close> did not override holds no
  function of this program.
\<close>

datatype slot = Warmer | Cooler

fun slot_callback :: "ns_relay \<Rightarrow> slot \<Rightarrow> callback" where
  "slot_callback nsr Warmer = relay_warmer nsr"
| "slot_callback nsr Cooler = relay_cooler nsr"

fun relay_main :: "ns_relay \<Rightarrow> (slot \<times> int) list \<Rightarrow> shared \<Rightarrow> action list \<times> shared" where
  "relay_main nsr [] s = ([], s)"
| "relay_main nsr ((sl, n) # calls) s =
     (case slot_callback nsr sl of
        Wrapper \<Rightarrow>
          (let r1 = warmer_cooler_wrapper n s;
               r2 = relay_main nsr calls (snd r1)
           in (fst r1 @ fst r2, snd r2))
      | Original v \<Rightarrow> relay_main nsr calls s)"

definition init_relay ::
  "ns_relay \<Rightarrow> gate_event list \<Rightarrow> (slot \<times> int) list \<Rightarrow> shared \<Rightarrow> action list \<times> shared \<times> outcome" where
  "init_relay nsr gate calls s =
     (case cond_wait gate of
        None \<Rightarrow>
          ([Log DEBUG ''Relay waiting to start until mesos framework is registered'',
            GateAcquire, GateWait],
           s, Blocked)
      | Some rest \<Rightarrow>
          (let r = relay_main nsr calls s
           in ([Log DEBUG ''Relay waiting to start until mesos framework is registered'',
                GateAcquire, GateWait, GateWoken,
                Log DEBUG ''Relay notified that mesos framework is registered'']
               @ fst r,
               snd r, StillRunning)))"

subsection \<open>The scheduler child: \<^verbatim>\<open>init_mesos_scheduler\<close> (lines 134 to 165)\<close>

text \<open>The values of \<^verbatim>\<open>mesos_pb2.Status\<close> that \<^verbatim>\<open>driver.run()\<close> can return.\<close>

datatype driver_status = DRIVER_NOT_STARTED | DRIVER_RUNNING | DRIVER_ABORTED | DRIVER_STOPPED



subsection \<open>The failure budget of the scheduler\<close>

text \<open>
  Modelled from the spec: the class \<^verbatim>\<open>Scheduler\<close> of \<^verbatim>\<open>relay_mesos/scheduler.py\<close>,
  whose status update keeps the failure count, is not among the sources. The
  specification says: a task is in one of the states Staging, Starting, Running,
  Finished, Failed, Lost, Killed; the score increments on Failed and Lost and decrements,
  clamped at 0, on Running and Finished; after every status update the breaker trips if
  the threshold is at least 0 and the score is above the threshold; a threshold below 0
  disables the breaker. The threshold is \<^verbatim>\<open>--max_failures\<close>, whose default in
  \<^verbatim>\<open>build_arg_parser\<close> is -1. A tripped breaker ends the process, so no later update
  is handled.
\<close>

datatype task_state =
  TASK_STAGING | TASK_STARTING | TASK_RUNNING | TASK_FINISHED | TASK_FAILED | TASK_LOST | TASK_KILLED

record failure_budget =
  score :: int
  threshold :: int

fun adjust :: "task_state \<Rightarrow> int \<Rightarrow> int" where
  "adjust TASK_FAILED s = s + 1"
| "adjust TASK_LOST s = s + 1"
| "adjust TASK_RUNNING s = max 0 (s - 1)"
| "adjust TASK_FINISHED s = max 0 (s - 1)"
| "adjust st s = s"

definition breaker_trips :: "failure_budget \<Rightarrow> bool" where
  "breaker_trips b = (0 \<le> threshold b \<and> threshold b < score b)"

definition status_update :: "task_state \<Rightarrow> failure_budget \<Rightarrow> failure_budget \<times> bool" where
  "status_update st b =
     (let b1 = b\<lparr>score := adjust st (score b)\<rparr> in (b1, breaker_trips b1))"

fun status_updates :: "task_state list \<Rightarrow> failure_budget \<Rightarrow> failure_budget \<times> bool" where
  "status_updates [] b = (b, False)"
| "status_updates (st # sts) b =
     (let r = status_update st b in if snd r then r else status_updates sts (fst r))"

section \<open>Properties\<close>

subsection \<open>The shared value\<close>

text \<open>Values within the range of a C \<^verbatim>\<open>long\<close> are stored and read back unchanged.\<close>

lemma read_store_value: "in_c_long n \<Longrightarrow> read_value (store_value n) = n"
  unfolding in_c_long_def read_value_def store_value_def
  by (simp add: sint_sbintrunc' signed_take_bit_int_eq_self)

lemma read_value_in_c_long: "in_c_long (read_value c)"
  unfolding in_c_long_def read_value_def
  using sint_ge[of c] sint_lt[of c] by simp

lemma read_value_merge:
  "in_c_long n \<Longrightarrow>
   read_value (merge n c) = (if \<bar>read_value c\<bar> < \<bar>n\<bar> then n else read_value c)"
  by (simp add: merge_def read_store_value)

text \<open>
  C1. As the specification states it: \<^verbatim>\<open>merge(n)\<close> replaces the stored value \<open>c\<close> with \<open>n\<close> if and only
  if \<open>|n| \<ge> |c|\<close>, and is a no-op otherwise. The guard of the source is the strict
  \<^verbatim>\<open>abs(MV.value) < abs(n)\<close>: with 3 stored, \<^verbatim>\<open>merge(-3)\<close> has \<open>|n| \<ge> |c|\<close>
  and leaves 3 in the cell.
\<close>

theorem merge_tie_counterexample:
  "read_value (merge (- 3) 3) = 3 \<and>
   \<not> (\<bar>read_value 3\<bar> \<le> \<bar>- 3 :: int\<bar> \<longrightarrow> read_value (merge (- 3) 3) = - 3)"
  by (simp add: merge_def read_value_def store_value_def)

text \<open>
  C1, as the code has it: when \<open>|n| > |c|\<close> the call stores \<open>n\<close> (as a C
  \<^verbatim>\<open>long\<close>, which is \<open>n\<close> itself for every \<open>n\<close> from \<open>-2^63\<close> to \<open>2^63 - 1\<close>);
  when \<open>|n| \<le> |c|\<close> the cell is unchanged. A value of equal magnitude never replaces
  the stored one.
\<close>

theorem merge_replaces_iff_strictly_larger:
  "(\<bar>read_value c\<bar> < \<bar>n\<bar> \<longrightarrow>
      merge n c = store_value n \<and> (in_c_long n \<longrightarrow> read_value (merge n c) = n)) \<and>
   (\<bar>n\<bar> \<le> \<bar>read_value c\<bar> \<longrightarrow> merge n c = c)"
  by (simp add: merge_def read_store_value)

theorem merge_replaces_iff_strictly_larger_witness:
  "\<bar>read_value 3\<bar> < \<bar>- 5 :: int\<bar> \<and> in_c_long (- 5) \<and> read_value (merge (- 5) 3) = - 5 \<and>
   \<bar>- 3 :: int\<bar> \<le> \<bar>read_value 3\<bar> \<and> merge (- 3) 3 = 3"
proof -
  have a: "\<bar>read_value 3\<bar> < \<bar>- 5 :: int\<bar>" by (simp add: read_value_def)
  have b: "in_c_long (- 5)" by (simp add: in_c_long_def)
  have c: "\<bar>- 3 :: int\<bar> \<le> \<bar>read_value 3\<bar>" by (simp add: read_value_def)
  from a b merge_replaces_iff_strictly_larger [of 3 "- 5"]
  have d: "read_value (merge (- 5) 3) = - 5" by blast
  from c merge_replaces_iff_strictly_larger [of 3 "- 3"]
  have e: "merge (- 3) 3 = 3" by blast
  from a b c d e show ?thesis by blast
qed

text \<open>
  After a run of calls with values in range, the stored value is the stored value before
  the run or one of the arguments, and no argument and no earlier value has a larger
  magnitude.
\<close>

lemma merge_all_bound:
  "\<forall>n\<in>set ns. in_c_long n \<Longrightarrow>
   read_value (merge_all ns c) \<in> insert (read_value c) (set ns) \<and>
   \<bar>read_value c\<bar> \<le> \<bar>read_value (merge_all ns c)\<bar> \<and>
   (\<forall>n\<in>set ns. \<bar>n\<bar> \<le> \<bar>read_value (merge_all ns c)\<bar>)"
proof (induction ns arbitrary: c)
  case Nil
  then show ?case by simp
next
  case (Cons n ns)
  have n: "in_c_long n" and rest: "\<forall>m\<in>set ns. in_c_long m"
    using Cons.prems by simp_all
  note ih = Cons.IH [OF rest, of "merge n c"]
  show ?case
  proof (cases "\<bar>read_value c\<bar> < \<bar>n\<bar>")
    case True
    then have "read_value (merge n c) = n" by (simp add: read_value_merge n)
    with ih True show ?thesis by auto
  next
    case False
    then have "read_value (merge n c) = read_value c" by (simp add: read_value_merge n)
    with ih False show ?thesis by auto
  qed
qed

text \<open>
  C2. As the specification states it: after any sequence \<^verbatim>\<open>merge(n_1), ..., merge(n_k)\<close> on a cell that
  starts at 0, the stored value is one of the \<open>n_i\<close> and its magnitude is the largest
  of the \<open>|n_i|\<close>. The single call \<^verbatim>\<open>merge(2 ** 64)\<close> passes the guard and stores
  the low 64 bits of its argument, which are 0: the cell then holds a value that is no
  argument of the sequence.
\<close>

theorem merge_all_out_of_range_counterexample:
  "read_value (merge_all [2 ^ 64] Value_l) = 0 \<and>
   read_value (merge_all [2 ^ 64] Value_l) \<notin> set [2 ^ 64]"
  by (simp add: merge_def read_value_def store_value_def Value_l_def)

text \<open>
  C2, for arguments the cell can hold: after any non-empty sequence of calls
  \<^verbatim>\<open>merge(n_1), ..., merge(n_k)\<close> with every \<open>n_i\<close> from \<open>-2^63\<close> to \<open>2^63 - 1\<close>, on a
  cell that starts at 0, the stored value is one of the \<open>n_i\<close> and its magnitude is the
  maximum of \<open>|n_1|, ..., |n_k|\<close>.
\<close>

theorem merge_all_largest_magnitude:
  assumes "ns \<noteq> []" and "\<forall>n\<in>set ns. in_c_long n"
  shows "read_value (merge_all ns Value_l) \<in> set ns \<and>
         \<bar>read_value (merge_all ns Value_l)\<bar> = Max (abs ` set ns)"
proof -
  let ?v = "read_value (merge_all ns Value_l)"
  have zero: "read_value Value_l = 0" by (simp add: Value_l_def read_value_def)
  from merge_all_bound [OF assms(2), of Value_l]
  have mem: "?v \<in> insert 0 (set ns)" and ub: "\<forall>n\<in>set ns. \<bar>n\<bar> \<le> \<bar>?v\<bar>"
    by (simp_all add: zero)
  have in_ns: "?v \<in> set ns"
  proof (cases "?v = 0")
    case True
    from assms(1) obtain m where m: "m \<in> set ns" by (cases ns) auto
    with ub True have "m = 0" by auto
    with m True show ?thesis by simp
  next
    case False
    with mem show ?thesis by simp
  qed
  have "Max (abs ` set ns) = \<bar>?v\<bar>"
  proof (rule Max_eqI)
    show "finite (abs ` set ns)" by simp
    show "\<And>y. y \<in> abs ` set ns \<Longrightarrow> y \<le> \<bar>?v\<bar>" using ub by auto
    show "\<bar>?v\<bar> \<in> abs ` set ns" using in_ns by simp
  qed
  with in_ns show ?thesis by simp
qed

theorem merge_all_largest_magnitude_witness:
  "read_value (merge_all [2, -7, 7, 3] Value_l) \<in> set [2, -7, 7, 3] \<and>
   \<bar>read_value (merge_all [2, -7, 7, 3] Value_l)\<bar> = Max (abs ` set [2, -7, 7, 3])"
  using merge_all_largest_magnitude [of "[2, -7, 7, 3]"]
  by (simp add: in_c_long_def)

text \<open>
  C10. The invariant as stated: no call of \<^verbatim>\<open>merge\<close> lowers the magnitude of the stored value, and
  \<^verbatim>\<open>merge(0)\<close> changes nothing. With 5 stored, \<^verbatim>\<open>merge(2 ** 64)\<close> passes the guard
  and stores 0.
\<close>

theorem merge_magnitude_counterexample:
  "read_value (merge (2 ^ 64) 5) = 0 \<and>
   \<not> \<bar>read_value 5\<bar> \<le> \<bar>read_value (merge (2 ^ 64) 5)\<bar>"
  by (simp add: merge_def read_value_def store_value_def)

text \<open>
  C10, for arguments the cell can hold: for every \<open>n\<close> from \<open>-2^63\<close> to \<open>2^63 - 1\<close> the
  magnitude of the stored value after \<^verbatim>\<open>merge(n)\<close> is at least the magnitude before;
  and \<^verbatim>\<open>merge(0)\<close> leaves every stored value, 0 included, as it is.
\<close>

theorem merge_magnitude_never_decreases:
  "(in_c_long n \<longrightarrow> \<bar>read_value c\<bar> \<le> \<bar>read_value (merge n c)\<bar>) \<and> merge 0 c = c"
  by (simp add: read_value_merge) (simp add: merge_def)

theorem merge_magnitude_never_decreases_witness:
  "in_c_long (- 9) \<and> \<bar>read_value 4\<bar> \<le> \<bar>read_value (merge (- 9) 4)\<bar> \<and> merge 0 4 = 4"
  using merge_magnitude_never_decreases [of "- 9" 4]
  by (simp add: in_c_long_def)

subsection \<open>The monitor loop\<close>

text \<open>Passes that take no \<^verbatim>\<open>break\<close> leave no mark: the loop goes on with what follows.\<close>

lemma monitor_quiet_prefix:
  "\<forall>e\<in>set pre. quiet e \<Longrightarrow> monitor (pre @ es) = monitor es"
proof (induction pre)
  case Nil
  then show ?case by simp
next
  case (Cons e pre)
  then show ?case by (cases e) (simp_all add: faulty_def)
qed


text \<open>
  A pass that sees a pending exception or a dead child logs which, and goes on to
  lines 121 to 123.
\<close>

lemma monitor_break:
  "faulty ob \<Longrightarrow> monitor (Poll ob rt mt # es) = prepend (break_log ob) (shutdown rt mt)"
  by (auto simp: faulty_def break_log_def)



lemma monitor_no_start: "Start c \<notin> set (fst (monitor es))"
  by (induction es rule: monitor.induct)
     (auto simp: kill_children_def prepend_def shutdown_def split: try_result.splits)

lemma main_start_once: "count_list (fst (main a events)) (Start c) \<le> 1"
proof -
  have "count_list (fst (monitor events)) (Start c) = 0"
    using monitor_no_start [of c events] by (simp add: count_list_0_iff)
  then show ?thesis by (cases c) (simp_all add: main_def prepend_def startup_def)
qed

lemma main_with_master:
  "mesos_master a \<noteq> None \<Longrightarrow> main a es = (startup @ fst (monitor es), snd (monitor es))"
  by (cases "mesos_master a") (simp_all add: main_def prepend_def)


text \<open>
  When \<^verbatim>\<open>relay.terminate()\<close> raises on line 121, lines 122 and 123 are not run.
\<close>

lemma terminate_raises_leaves_main:
  assumes "mesos_master a \<noteq> None" and "\<forall>e\<in>set pre. quiet e" and "faulty ob"
  shows "main a (pre @ Poll ob Raises mt # post) =
           (startup @ break_log ob @ [TerminateRaised Relay], Uncaught ''OSError'')"
proof -
  have "monitor (pre @ Poll ob Raises mt # post) = monitor (Poll ob Raises mt # post)"
    using assms(2) by (rule monitor_quiet_prefix)
  also have "\<dots> = prepend (break_log ob) (shutdown Raises mt)"
    using assms(3) by (rule monitor_break)
  also have "\<dots> = (break_log ob @ [TerminateRaised Relay], Uncaught ''OSError'')"
    by (simp add: prepend_def shutdown_def)
  finally show ?thesis by (simp add: main_with_master [OF assms(1)])
qed




text \<open>
  C5. As the specification states it: in every run, on the first fault delivered or on
  either child's death, the supervisor terminates both children and exits with failure
  status, and no child is restarted. Lines 121 to 123 do this when both
  \<^verbatim>\<open>terminate()\<close> calls return. The signal handler guards each of its two calls with
  \<^verbatim>\<open>try ... except\<close> (lines 91 to 100); lines 121 and 122 have no guard. In the run
  below an exception is on the pipe, both children are alive and
  \<^verbatim>\<open>relay.terminate()\<close> raises: \<^verbatim>\<open>mesos.terminate()\<close> is never called, the
  scheduler child is left running, and \<^verbatim>\<open>main\<close> ends by the exception instead of
  \<^verbatim>\<open>sys.exit(1)\<close>.
\<close>

theorem monitor_terminate_raises:
  "main \<lparr>mesos_master = Some ''zk://localhost:2181/mesos'', warmer = Some ''echo up'',
          cooler = Some ''echo down'', max_failures = - 1\<rparr>
     [Poll \<lparr>fault_pending = True, relay_alive = True, mesos_alive = True\<rparr> Raises Returns]
   = (startup @
      [Recv, Log ERROR ''Terminating child processes because one of them raised an exception'',
       TerminateRaised Relay],
      Uncaught ''OSError'') \<and>
   Terminate Mesos \<notin> set (fst (main
     \<lparr>mesos_master = Some ''zk://localhost:2181/mesos'', warmer = Some ''echo up'',
      cooler = Some ''echo down'', max_failures = - 1\<rparr>
     [Poll \<lparr>fault_pending = True, relay_alive = True, mesos_alive = True\<rparr> Raises Returns])) \<and>
   TerminateRaised Mesos \<notin> set (fst (main
     \<lparr>mesos_master = Some ''zk://localhost:2181/mesos'', warmer = Some ''echo up'',
      cooler = Some ''echo down'', max_failures = - 1\<rparr>
     [Poll \<lparr>fault_pending = True, relay_alive = True, mesos_alive = True\<rparr> Raises Returns]))"
  by (simp add: main_def prepend_def shutdown_def startup_def)

text \<open>
  C8. When \<^verbatim>\<open>mesos_master\<close> is \<^verbatim>\<open>None\<close>, \<^verbatim>\<open>main\<close> logs the error, prints the
  usage and exits with status 1; no child process is started.
\<close>

theorem main_without_master:
  "mesos_master a = None \<Longrightarrow>
   main a events = ([Log ERROR usage_message, PrintUsage], Exit 1) \<and>
   PrintUsage \<in> set (fst (main a events)) \<and>
   (\<forall>c. Start c \<notin> set (fst (main a events)))"
  by (simp add: main_def)

theorem main_without_master_witness:
  "mesos_master \<lparr>mesos_master = None, warmer = Some ''echo up'', cooler = None, max_failures = - 1\<rparr> = None \<and>
   snd (main \<lparr>mesos_master = None, warmer = Some ''echo up'', cooler = None, max_failures = - 1\<rparr>
          [Poll \<lparr>fault_pending = False, relay_alive = True, mesos_alive = True\<rparr> Returns Returns]) = Exit 1 \<and>
   Start Mesos \<notin> set (fst (main \<lparr>mesos_master = None, warmer = Some ''echo up'', cooler = None, max_failures = - 1\<rparr>
          [Poll \<lparr>fault_pending = False, relay_alive = True, mesos_alive = True\<rparr> Returns Returns])) \<and>
   Start Relay \<notin> set (fst (main \<lparr>mesos_master = None, warmer = Some ''echo up'', cooler = None, max_failures = - 1\<rparr>
          [Poll \<lparr>fault_pending = False, relay_alive = True, mesos_alive = True\<rparr> Returns Returns]))"
  using main_without_master
    [of "\<lparr>mesos_master = None, warmer = Some ''echo up'', cooler = None, max_failures = - 1\<rparr>"
        "[Poll \<lparr>fault_pending = False, relay_alive = True, mesos_alive = True\<rparr> Returns Returns]"]
  by simp

text \<open>
  C9. The handler \<^verbatim>\<open>main\<close> installs for SIGTERM and SIGINT exits with status 1
  whatever its two \<^verbatim>\<open>terminate()\<close> calls do. Each child is terminated, or the
  failure to terminate it is logged; whether the call on the scheduler child raises has
  no influence on the call on the Relay child. When one of the two signals arrives in
  the monitor loop, the supervisor does what the handler does and ends there.
\<close>

theorem kill_children_terminates_both:
  "snd (kill_children sig m r) = Exit 1 \<and>
   (Terminate Mesos \<in> set (fst (kill_children sig m r)) \<or>
      TerminateRaised Mesos \<in> set (fst (kill_children sig m r)) \<and>
      Log EXCEPTION ''could not terminate mesos scheduler'' \<in> set (fst (kill_children sig m r))) \<and>
   (Terminate Relay \<in> set (fst (kill_children sig m r)) \<or>
      TerminateRaised Relay \<in> set (fst (kill_children sig m r)) \<and>
      Log EXCEPTION ''could not terminate relay'' \<in> set (fst (kill_children sig m r))) \<and>
   (Terminate Mesos \<in> set (fst (kill_children sig m r))) = (m = Returns) \<and>
   (Terminate Relay \<in> set (fst (kill_children sig m r))) = (r = Returns) \<and>
   InstallHandler SIGTERM \<in> set startup \<and> InstallHandler SIGINT \<in> set startup \<and>
   (mesos_master a \<noteq> None \<and> (\<forall>e\<in>set pre. quiet e) \<longrightarrow>
      main a (pre @ Signal sig m r # post) = (startup @ fst (kill_children sig m r), Exit 1))"
proof -
  have "mesos_master a \<noteq> None \<and> (\<forall>e\<in>set pre. quiet e) \<longrightarrow>
      main a (pre @ Signal sig m r # post) = (startup @ fst (kill_children sig m r), Exit 1)"
  proof
    assume h: "mesos_master a \<noteq> None \<and> (\<forall>e\<in>set pre. quiet e)"
    from h have q: "\<forall>e\<in>set pre. quiet e" and nm: "mesos_master a \<noteq> None"
      by blast+
    have eq: "monitor (pre @ Signal sig m r # post) = monitor (Signal sig m r # post)"
      using q by (rule monitor_quiet_prefix)
    have "main a (pre @ Signal sig m r # post) =
          (startup @ fst (monitor (Signal sig m r # post)), snd (monitor (Signal sig m r # post)))"
      by (simp add: main_def prepend_def nm eq)
    then show "main a (pre @ Signal sig m r # post) = (startup @ fst (kill_children sig m r), Exit 1)"
      by (simp add: kill_children_def)
  qed
  moreover have "InstallHandler SIGTERM \<in> set startup \<and> InstallHandler SIGINT \<in> set startup"
    by (simp add: startup_def)
  moreover have "snd (kill_children sig m r) = Exit 1 \<and>
   (Terminate Mesos \<in> set (fst (kill_children sig m r)) \<or>
      TerminateRaised Mesos \<in> set (fst (kill_children sig m r)) \<and>
      Log EXCEPTION ''could not terminate mesos scheduler'' \<in> set (fst (kill_children sig m r))) \<and>
   (Terminate Relay \<in> set (fst (kill_children sig m r)) \<or>
      TerminateRaised Relay \<in> set (fst (kill_children sig m r)) \<and>
      Log EXCEPTION ''could not terminate relay'' \<in> set (fst (kill_children sig m r))) \<and>
   (Terminate Mesos \<in> set (fst (kill_children sig m r))) = (m = Returns) \<and>
   (Terminate Relay \<in> set (fst (kill_children sig m r))) = (r = Returns)"
    by (cases m; cases r) (simp_all add: kill_children_def)
  ultimately show ?thesis by blast
qed

theorem kill_children_terminates_both_witness:
  "main \<lparr>mesos_master = Some ''zk://localhost:2181/mesos'', warmer = Some ''echo up'',
          cooler = Some ''echo down'', max_failures = - 1\<rparr>
     [Poll \<lparr>fault_pending = False, relay_alive = True, mesos_alive = True\<rparr> Returns Returns,
      Signal SIGINT Raises Returns,
      Poll \<lparr>fault_pending = False, relay_alive = True, mesos_alive = True\<rparr> Returns Returns]
   = (startup @
      [Log ERROR ''Received a signal that is trying to terminate this process. Terminating mesos and relay child processes!'',
       TerminateRaised Mesos, Log EXCEPTION ''could not terminate mesos scheduler'',
       Terminate Relay, Log INFO ''terminated relay''],
      Exit 1)"
proof -
  let ?a = "\<lparr>mesos_master = Some ''zk://localhost:2181/mesos'', warmer = Some ''echo up'',
          cooler = Some ''echo down'', max_failures = - 1\<rparr>"
  let ?q = "Poll \<lparr>fault_pending = False, relay_alive = True, mesos_alive = True\<rparr> Returns Returns"
  have h: "mesos_master ?a \<noteq> None \<and> (\<forall>e\<in>set [?q]. quiet e)"
    by (simp add: faulty_def)
  from h kill_children_terminates_both [of SIGINT Raises Returns ?a "[?q]" "[?q]"]
  have "main ?a ([?q] @ Signal SIGINT Raises Returns # [?q])
        = (startup @ fst (kill_children SIGINT Raises Returns), Exit 1)"
    by blast
  then show ?thesis by (simp add: kill_children_def)
qed

subsection \<open>The wrapper and the Relay child\<close>

text \<open>
  C7. For every integer \<open>n\<close>, a call of the wrapper with \<open>n\<close> runs the locked block
  (\<^verbatim>\<open>merge(n)\<close>) on \<^verbatim>\<open>MV\<close> and leaves the rest of the shared state as it was; it
  executes no command. What it emits besides are its two debug log records. The warmer
  and the cooler that \<^verbatim>\<open>main\<close> hands to Relay are this wrapper whenever the
  namespace gives a warmer or a cooler.
\<close>

theorem wrapper_only_merges:
  "snd (warmer_cooler_wrapper n s) = s\<lparr>MV := merge n (MV s)\<rparr> \<and>
   MV (snd (warmer_cooler_wrapper n s)) = merge n (MV s) \<and>
   pipe (snd (warmer_cooler_wrapper n s)) = pipe s \<and>
   fst (warmer_cooler_wrapper n s) =
     [Log DEBUG ''asking mesos to spawn tasks'', Merge n,
      Log DEBUG ''...finished asking mesos to spawn tasks''] \<and>
   (\<forall>cmd. Exec cmd \<notin> set (fst (warmer_cooler_wrapper n s))) \<and>
   (\<forall>sl. slot_callback nsr sl = Wrapper \<longrightarrow>
      relay_main nsr [(sl, n)] s = warmer_cooler_wrapper n s) \<and>
   (truthy (warmer a) \<longrightarrow> slot_callback (make_ns_relay a) Warmer = Wrapper) \<and>
   (truthy (cooler a) \<longrightarrow> slot_callback (make_ns_relay a) Cooler = Wrapper)"
  by (simp add: warmer_cooler_wrapper_def make_ns_relay_def)

theorem wrapper_only_merges_witness:
  "relay_main
     (make_ns_relay \<lparr>mesos_master = Some ''zk://localhost:2181/mesos'', warmer = Some ''echo up'',
                      cooler = Some ''echo down'', max_failures = - 1\<rparr>)
     [(Cooler, - 4)] \<lparr>MV = 2, pipe = []\<rparr>
   = ([Log DEBUG ''asking mesos to spawn tasks'', Merge (- 4),
       Log DEBUG ''...finished asking mesos to spawn tasks''],
      \<lparr>MV = store_value (- 4), pipe = []\<rparr>)"
proof -
  let ?a = "\<lparr>mesos_master = Some ''zk://localhost:2181/mesos'', warmer = Some ''echo up'',
                      cooler = Some ''echo down'', max_failures = - 1\<rparr>"
  let ?s = "\<lparr>MV = 2, pipe = []\<rparr>"
  note t = wrapper_only_merges [of "- 4" ?s "make_ns_relay ?a" ?a]
  have c: "truthy (cooler ?a)" by (simp add: truthy_def)
  from t c have w: "slot_callback (make_ns_relay ?a) Cooler = Wrapper" by blast
  from t w have r: "relay_main (make_ns_relay ?a) [(Cooler, - 4)] ?s = warmer_cooler_wrapper (- 4) ?s"
    by blast
  from t have f: "fst (warmer_cooler_wrapper (- 4) ?s) =
     [Log DEBUG ''asking mesos to spawn tasks'', Merge (- 4),
      Log DEBUG ''...finished asking mesos to spawn tasks'']"
    and g: "snd (warmer_cooler_wrapper (- 4) ?s) = ?s\<lparr>MV := merge (- 4) (MV ?s)\<rparr>"
    by blast+
  have m: "merge (- 4) 2 = store_value (- 4)" by (simp add: merge_def read_value_def)
  show ?thesis unfolding r using f g m by (simp add: prod_eq_iff)
qed

text \<open>The wait returns exactly when a notify is among what happens on the condition.\<close>

lemma cond_wait_None: "(cond_wait gate = None) = (Notify \<notin> set gate)"
  by (induction gate rule: cond_wait.induct) simp_all

text \<open>
  C6. \<^verbatim>\<open>init_relay\<close> waits on the condition before it runs the loop, and the wait has
  no timeout: as long as no notify comes, however long that lasts, the process is
  blocked with the shared state untouched and no call of the wrapper in its trace. In
  every run, a call of the wrapper stands after the wait and after the waking that ends
  it, and the condition has been notified.
\<close>

theorem init_relay_waits_for_gate:
  "(Notify \<notin> set gate \<longrightarrow>
      init_relay nsr gate calls s =
        ([Log DEBUG ''Relay waiting to start until mesos framework is registered'',
          GateAcquire, GateWait], s, Blocked)) \<and>
   (Notify \<notin> set gate \<longrightarrow> (\<forall>n. Merge n \<notin> set (fst (init_relay nsr gate calls s)))) \<and>
   (\<forall>pre post n. fst (init_relay nsr gate calls s) = pre @ Merge n # post \<longrightarrow>
      (\<exists>p1 p2. pre = p1 @ GateWait # GateWoken # p2 \<and> Notify \<in> set gate))"
proof (cases "cond_wait gate")
  case None
  then have "Notify \<notin> set gate" by (simp add: cond_wait_None)
  with None show ?thesis
    by (auto simp: init_relay_def Cons_eq_append_conv)
next
  case (Some rest)
  then have g: "Notify \<in> set gate" using cond_wait_None [of gate] by auto
  let ?w = "Log DEBUG ''Relay waiting to start until mesos framework is registered''"
  let ?n = "Log DEBUG ''Relay notified that mesos framework is registered''"
  let ?r = "fst (relay_main nsr calls s)"
  have tr: "fst (init_relay nsr gate calls s) = [?w, GateAcquire, GateWait, GateWoken, ?n] @ ?r"
    using Some by (simp add: init_relay_def Let_def)
  have "\<exists>p1 p2. pre = p1 @ GateWait # GateWoken # p2"
    if "[?w, GateAcquire, GateWait, GateWoken, ?n] @ ?r = pre @ Merge n # post" for pre post n
  proof -
    from that obtain p where "pre = [?w, GateAcquire, GateWait, GateWoken, ?n] @ p"
      by (auto simp: append_eq_append_conv2 Cons_eq_append_conv append_eq_Cons_conv)
    then have "pre = [?w, GateAcquire] @ GateWait # GateWoken # (?n # p)" by simp
    then show ?thesis by blast
  qed
  with g tr show ?thesis by simp
qed

theorem init_relay_waits_for_gate_witness:
  "init_relay \<lparr>relay_warmer = Wrapper, relay_cooler = Wrapper\<rparr> [Idle, Idle, Idle]
     [(Warmer, 3), (Cooler, - 5)] \<lparr>MV = 0, pipe = []\<rparr>
   = ([Log DEBUG ''Relay waiting to start until mesos framework is registered'',
       GateAcquire, GateWait], \<lparr>MV = 0, pipe = []\<rparr>, Blocked) \<and>
   Merge 3 \<notin> set (fst (init_relay \<lparr>relay_warmer = Wrapper, relay_cooler = Wrapper\<rparr>
     [Idle, Idle, Idle] [(Warmer, 3), (Cooler, - 5)] \<lparr>MV = 0, pipe = []\<rparr>))"
proof -
  let ?nsr = "\<lparr>relay_warmer = Wrapper, relay_cooler = Wrapper\<rparr>"
  let ?s = "\<lparr>MV = 0, pipe = []\<rparr>"
  have g: "Notify \<notin> set [Idle, Idle, Idle]" by simp
  from g init_relay_waits_for_gate [of "[Idle, Idle, Idle]" ?nsr "[(Warmer, 3), (Cooler, - 5)]" ?s]
  show ?thesis by blast
qed

subsection \<open>The failure budget\<close>

lemma status_update_threshold: "threshold (fst (status_update st b)) = threshold b"
  by (simp add: status_update_def Let_def)

lemma status_updates_disabled:
  "threshold b < 0 \<Longrightarrow> \<not> snd (status_updates sts b)"
proof (induction sts arbitrary: b)
  case Nil
  then show ?case by simp
next
  case (Cons st sts)
  have "\<not> snd (status_update st b)"
    using Cons.prems by (simp add: status_update_def breaker_trips_def Let_def)
  moreover have "threshold (fst (status_update st b)) < 0"
    using Cons.prems by (simp add: status_update_threshold)
  ultimately show ?case using Cons.IH by (simp add: Let_def)
qed

text \<open>
  A run of failures with no success in between, from a score that has not tripped the
  breaker: the breaker has tripped after \<open>k\<close> of them exactly when the score has passed
  the threshold.
\<close>

lemma failures_from:
  "0 \<le> threshold b \<Longrightarrow> score b \<le> threshold b \<Longrightarrow>
   snd (status_updates (replicate k TASK_FAILED) b) = (threshold b < score b + int k)"
proof (induction k arbitrary: b)
  case 0
  then show ?case by simp
next
  case (Suc k)
  let ?b1 = "fst (status_update TASK_FAILED b)"
  have s1: "score ?b1 = score b + 1" and t1: "threshold ?b1 = threshold b"
    by (simp_all add: status_update_def Let_def)
  show ?case
  proof (cases "threshold b < score b + 1")
    case True
    then have "snd (status_update TASK_FAILED b)"
      using Suc.prems by (simp add: status_update_def breaker_trips_def Let_def)
    with True show ?thesis by (simp add: Let_def)
  next
    case False
    then have nt: "\<not> snd (status_update TASK_FAILED b)"
      by (simp add: status_update_def breaker_trips_def Let_def)
    have "snd (status_updates (replicate k TASK_FAILED) ?b1) = (threshold ?b1 < score ?b1 + int k)"
      using Suc.prems False by (intro Suc.IH) (simp_all add: s1 t1)
    with nt show ?thesis by (simp add: Let_def s1 t1 add.assoc)
  qed
qed

text \<open>
  C3. A status update Failed or Lost sets the score \<open>s\<close> to \<open>s + 1\<close>; a status update
  Running or Finished sets it to \<open>max(0, s - 1)\<close>; the threshold \<open>T\<close> stays; the breaker
  trips after a status update exactly when \<open>T \<ge> 0\<close> and the new score is above
  \<open>T\<close>; with \<open>T < 0\<close> no sequence of status updates trips it.
\<close>

theorem failure_budget_rules:
  "(st = TASK_FAILED \<or> st = TASK_LOST \<longrightarrow>
      score (fst (status_update st b)) = score b + 1) \<and>
   (st = TASK_RUNNING \<or> st = TASK_FINISHED \<longrightarrow>
      score (fst (status_update st b)) = max 0 (score b - 1)) \<and>
   threshold (fst (status_update st b)) = threshold b \<and>
   snd (status_update st b) =
     (0 \<le> threshold b \<and> threshold b < score (fst (status_update st b))) \<and>
   (threshold b < 0 \<longrightarrow> \<not> snd (status_updates sts b))"
proof -
  have "threshold b < 0 \<longrightarrow> \<not> snd (status_updates sts b)"
    using status_updates_disabled by blast
  moreover have "st = TASK_FAILED \<or> st = TASK_LOST \<longrightarrow>
      score (fst (status_update st b)) = score b + 1"
    by (auto simp: status_update_def Let_def)
  moreover have "st = TASK_RUNNING \<or> st = TASK_FINISHED \<longrightarrow>
      score (fst (status_update st b)) = max 0 (score b - 1)"
    by (auto simp: status_update_def Let_def)
  moreover have "snd (status_update st b) =
     (0 \<le> threshold b \<and> threshold b < score (fst (status_update st b)))"
    by (simp add: status_update_def breaker_trips_def Let_def)
  ultimately show ?thesis by (simp add: status_update_threshold)
qed

theorem failure_budget_rules_witness:
  "score (fst (status_update TASK_LOST \<lparr>score = 3, threshold = 3\<rparr>)) = 4 \<and>
   snd (status_update TASK_LOST \<lparr>score = 3, threshold = 3\<rparr>) \<and>
   score (fst (status_update TASK_FINISHED \<lparr>score = 0, threshold = 3\<rparr>)) = 0 \<and>
   \<not> snd (status_updates [TASK_FAILED, TASK_FAILED, TASK_LOST, TASK_FAILED] \<lparr>score = 0, threshold = - 1\<rparr>)"
proof -
  note a = failure_budget_rules [of TASK_LOST "\<lparr>score = 3, threshold = 3\<rparr>" "[]"]
  note b = failure_budget_rules [of TASK_FINISHED "\<lparr>score = 0, threshold = 3\<rparr>" "[]"]
  note c = failure_budget_rules [of TASK_FAILED "\<lparr>score = 0, threshold = - 1\<rparr>"
             "[TASK_FAILED, TASK_FAILED, TASK_LOST, TASK_FAILED]"]
  from a have 1: "score (fst (status_update TASK_LOST \<lparr>score = 3, threshold = 3\<rparr>)) = 4" by simp
  from a 1 have 2: "snd (status_update TASK_LOST \<lparr>score = 3, threshold = 3\<rparr>)" by simp
  from b have 3: "score (fst (status_update TASK_FINISHED \<lparr>score = 0, threshold = 3\<rparr>)) = 0" by simp
  have neg: "threshold \<lparr>score = 0, threshold = - 1\<rparr> < 0" by simp
  from c neg have 4: "\<not> snd (status_updates [TASK_FAILED, TASK_FAILED, TASK_LOST, TASK_FAILED] \<lparr>score = 0, threshold = - 1\<rparr>)"
    by blast
  from 1 2 3 4 show ?thesis by blast
qed

end
